theory Spec2Isabelle
  imports
    Main
    "HOL-Library.Char_ord"
    "HOL-Library.List_Lexorder"
    "HOL-Library.AList"
    "HOL-Library.Multiset"
begin

section \<open>Strings as Python sees them\<close>

text \<open>
  Python strings are modelled as \<^typ>\<open>string\<close>: a character is a code point from U+0000
  to U+00FF (Latin-1), and strings with a code point above U+00FF are outside the model.
  Their order is the code-point order on characters (\<open>Char_ord\<close>) lifted
  lexicographically to lists (\<open>List_Lexorder\<close>), which is how \<^verbatim>\<open>list.sort()\<close> and
  \<^verbatim>\<open>sorted()\<close> compare \<^verbatim>\<open>str\<close> values.
\<close>

text \<open>
  \<^verbatim>\<open>str.lower()\<close>. Below U+0100 the characters it changes are the letters A to Z and
  U+00C0 to U+00DE without the multiplication sign U+00D7; each moves up by 32 code
  points. Every other character of the range, the sharp s (U+00DF) and the micro sign
  (U+00B5) among them, is left as it is.
\<close>

definition latin1_upper :: string where
  "latin1_upper = ''ABCDEFGHIJKLMNOPQRSTUVWXYZ'' @
     [CHR 0xC0, CHR 0xC1, CHR 0xC2, CHR 0xC3, CHR 0xC4, CHR 0xC5, CHR 0xC6, CHR 0xC7,
      CHR 0xC8, CHR 0xC9, CHR 0xCA, CHR 0xCB, CHR 0xCC, CHR 0xCD, CHR 0xCE, CHR 0xCF,
      CHR 0xD0, CHR 0xD1, CHR 0xD2, CHR 0xD3, CHR 0xD4, CHR 0xD5, CHR 0xD6,
      CHR 0xD8, CHR 0xD9, CHR 0xDA, CHR 0xDB, CHR 0xDC, CHR 0xDD, CHR 0xDE]"

definition latin1_lower :: string where
  "latin1_lower = ''abcdefghijklmnopqrstuvwxyz'' @
     [CHR 0xE0, CHR 0xE1, CHR 0xE2, CHR 0xE3, CHR 0xE4, CHR 0xE5, CHR 0xE6, CHR 0xE7,
      CHR 0xE8, CHR 0xE9, CHR 0xEA, CHR 0xEB, CHR 0xEC, CHR 0xED, CHR 0xEE, CHR 0xEF,
      CHR 0xF0, CHR 0xF1, CHR 0xF2, CHR 0xF3, CHR 0xF4, CHR 0xF5, CHR 0xF6,
      CHR 0xF8, CHR 0xF9, CHR 0xFA, CHR 0xFB, CHR 0xFC, CHR 0xFD, CHR 0xFE]"

definition lower_char :: "char \<Rightarrow> char" where
  "lower_char c =
     (case map_of (zip latin1_upper latin1_lower) c of
        None \<Rightarrow> c
      | Some d \<Rightarrow> d)"

definition lower :: "string \<Rightarrow> string" where
  "lower s = map lower_char s"

text \<open>\<^verbatim>\<open>s.startswith(p)\<close>.\<close>

definition startswith :: "string \<Rightarrow> string \<Rightarrow> bool" where
  "startswith s p = (take (length p) s = p)"

text \<open>\<^verbatim>\<open>str(n)\<close> for an integer: the decimal numeral, with a leading minus sign below zero.\<close>

definition digit_char :: "nat \<Rightarrow> char" where
  "digit_char d = ''0123456789'' ! d"

fun str_nat :: "nat \<Rightarrow> string" where
  "str_nat n =
     (if n < 10 then [digit_char n] else str_nat (n div 10) @ [digit_char (n mod 10)])"

declare str_nat.simps [simp del]

definition str_int :: "int \<Rightarrow> string" where
  "str_int i = (if i < 0 then CHR ''-'' # str_nat (nat (- i)) else str_nat (nat i))"

definition is_digit :: "char \<Rightarrow> bool" where
  "is_digit c = (c \<in> set ''0123456789'')"


section \<open>Data model\<close>

text \<open>
  One row of the metadata table. \<open>raw_id\<close> is the row label (\<^verbatim>\<open>row.name\<close>, the
  stream id assigned by the container); the other fields are the columns that
  \<^verbatim>\<open>make_nl_id\<close> reads.
\<close>

record stream =
  raw_id :: int
  type :: string
  name :: string
  hostname :: string
  source_id :: string

text \<open>The exceptions that the modelled code raises or handles.\<close>

datatype error =
    KeyError string
  | IndexError
  | ValueError
  | NoLoadableStreamsError string
  | XdfAlreadyLoadedError string
  | OtherError string

text \<open>\<^verbatim>\<open>NlXdf.hostname_device_mapper\<close>\<close>

definition hostname_device_mapper :: "(string \<times> string) list" where
  "hostname_device_mapper =
     [(''DESKTOP-3R7C1PH'', ''eeg-a''),
      (''DESKTOP-2TI6RBU'', ''eeg-b''),
      (''DESKTOP-MN7K6RM'', ''eeg-c''),
      (''DESKTOP-URRV98M'', ''eeg-d''),
      (''DESKTOP-DATOEVU'', ''eeg-e''),
      (''TABLET-9I44R1AR'', ''eeg-f''),
      (''DESKTOP-SLAKFQE'', ''eeg-g''),
      (''DESKTOP-6FJTJJN'', ''eeg-h''),
      (''DESKTOP-HDOESKS'', ''eeg-i''),
      (''DESKTOP-LIA3G09'', ''eeg-j''),
      (''DESKTOP-V6779I4'', ''eeg-k''),
      (''DESKTOP-PLV2A7L'', ''eeg-l''),
      (''DESKTOP-SSSOE1L'', ''eeg-m''),
      (''DESKTOP-RM16J67'', ''eeg-n''),
      (''DESKTOP-N2RA68S'', ''eeg-o''),
      (''DESKTOP-S597Q21'', ''eeg-p''),
      (''TABLET-06K1PLD4'', ''eeg-q''),
      (''DESKTOP-MK0GQFM'', ''eeg-r''),
      (''DESKTOP-7GV3RJU'', ''eeg-s''),
      (''DESKTOP-S5A1PPK'', ''eeg-t''),
      (''TABLET-3BS4NTP2'', ''eeg-u''),
      (''DESKTOP-QG4CNEV'', ''eeg-v''),
      (''DESKTOP-OAF4OCM'', ''eeg-w''),
      (''TABLET-47TCFCEB'', ''eeg-cs-v''),
      (''CGS-PCD-26098'', ''tabarnak''),
      (''CGS-PCL-38928'', ''laura''),
      (''cgs-macl-39034.campus.goldsmiths.ac.uk'', ''mirko''),
      (''kassia'', ''jamief'')]"

text \<open>\<^verbatim>\<open>NlXdf.metadata_mapper\<close>: per column, the exact values to replace.\<close>

definition metadata_mapper_type :: "(string \<times> string) list" where
  "metadata_mapper_type = [(''EEG'', ''eeg'')]"

text \<open>\<^verbatim>\<open>NlXdf.channel_metadata_mapper\<close>, columns \<^verbatim>\<open>label\<close> and \<^verbatim>\<open>type\<close>.\<close>

definition channel_metadata_mapper_label :: "(string \<times> string) list" where
  "channel_metadata_mapper_label =
     [(''0'', ''Fp1''), (''1'', ''Fpz''), (''2'', ''Fp2''), (''3'', ''F7''),
      (''4'', ''F3''), (''5'', ''Fz''), (''6'', ''F4''), (''7'', ''F8''),
      (''8'', ''FC5''), (''9'', ''FC1''), (''10'', ''FC2''), (''11'', ''FC6''),
      (''12'', ''M1''), (''13'', ''T7''), (''14'', ''C3''), (''15'', ''Cz''),
      (''16'', ''C4''), (''17'', ''T8''), (''18'', ''M2''), (''19'', ''CP5''),
      (''20'', ''CP1''), (''21'', ''CP2''), (''22'', ''CP6''), (''23'', ''P7''),
      (''24'', ''P3''), (''25'', ''Pz''), (''26'', ''P4''), (''27'', ''P8''),
      (''28'', ''POz''), (''29'', ''O1''), (''30'', ''Oz''), (''31'', ''O2''),
      (''32'', ''Resp''), (''67'', ''CPz''), (''33'', ''trigger''), (''34'', ''counter'')]"

definition channel_metadata_mapper_type :: "(string \<times> string) list" where
  "channel_metadata_mapper_type =
     [(''ref'', ''eeg''), (''aux'', ''misc''), (''bip'', ''misc''),
      (''trigger'', ''misc''), (''counter'', ''misc''), (''trg'', ''stim'')]"


section \<open>Classification: \<^verbatim>\<open>_create_nl_ids\<close>\<close>

text \<open>
  The \<^verbatim>\<open>if\<close>/\<^verbatim>\<open>elif\<close> chain of \<^verbatim>\<open>make_nl_id\<close> (lines 203 to 236), in the source's
  order. \<^verbatim>\<open>hostname_map[row['hostname']]\<close> is a plain subscript, so a missing
  hostname raises \<^verbatim>\<open>KeyError\<close>; the sync-test branch asks \<^verbatim>\<open>in hostname_map\<close> first.
  A \<^verbatim>\<open>pupil\<close> row whose type is neither \<^verbatim>\<open>event\<close> nor \<^verbatim>\<open>gaze\<close> keeps the fallback.
\<close>

definition base_id :: "stream \<Rightarrow> (string \<times> string) list \<Rightarrow> error + string" where
  "base_id row hostname_map =
     (let nl_id = str_int (raw_id row) in
      if lower (type row) = ''eeg'' then
        (case map_of hostname_map (hostname row) of
           None \<Rightarrow> Inl (KeyError (hostname row))
         | Some device \<Rightarrow> Inr device)
      else if name row = ''TimestampStream'' then Inr ''ts-marker''
      else if name row = ''CameraRecordingTime'' then Inr ''ts-video''
      else if type row = ''marker'' \<and> name row = ''audio'' then Inr ''ts-audio''
      else if startswith (lower (name row)) ''pupil'' then
        (if lower (type row) = ''event'' then Inr (''pl-'' @ source_id row @ ''-event'')
         else if lower (type row) = ''gaze'' then Inr (''pl-'' @ source_id row @ ''-gaze'')
         else Inr nl_id)
      else if type row = ''data'' \<and> startswith (name row) ''Test'' then
        (if hostname row \<in> set [''neurolive'', ''bobby''] then Inr ''test-ref''
         else case map_of hostname_map (hostname row) of
           Some device \<Rightarrow> Inr (''test-'' @ device)
         | None \<Rightarrow> Inr ''test'')
      else if type row = ''control'' then Inr ''test-ctrl''
      else if lower (type row) = ''markers'' then Inr (nl_id @ ''-markers'')
      else if startswith (name row) ''_relay_'' then Inr (nl_id @ ''-relay'')
      else Inr nl_id)"

text \<open>
  \<^verbatim>\<open>collections.Counter\<close>: a missing key reads as 0; \<^verbatim>\<open>update([k])\<close> adds one to \<open>k\<close>.
\<close>

type_synonym counter = "string \<Rightarrow> nat"

definition Counter :: counter where
  "Counter = (\<lambda>_. 0)"

definition counter_update :: "counter \<Rightarrow> string \<Rightarrow> counter" where
  "counter_update c k = c(k := c k + 1)"

text \<open>
  \<^verbatim>\<open>make_nl_id\<close>: the rule chain, then the collision suffix (lines 237 to 240). The
  counter is mutated by the call, so the new counter is returned with the id.
\<close>

definition make_nl_id ::
  "stream \<Rightarrow> counter \<Rightarrow> (string \<times> string) list \<Rightarrow> error + (string \<times> counter)" where
  "make_nl_id row unique_id_counter hostname_map =
     (case base_id row hostname_map of
        Inl e \<Rightarrow> Inl e
      | Inr nl_id \<Rightarrow>
          (let unique_id_counter' = counter_update unique_id_counter nl_id in
           if unique_id_counter' nl_id > 1
           then Inr (nl_id @ ''-'' @ str_nat (unique_id_counter' nl_id), unique_id_counter')
           else Inr (nl_id, unique_id_counter')))"

text \<open>
  \<^verbatim>\<open>df.apply(make_nl_id, axis='columns', ...)\<close>: the rows in table order, one call per
  row, all sharing the counter; the first exception ends the pass.
\<close>

fun apply_rows ::
  "counter \<Rightarrow> (string \<times> string) list \<Rightarrow> stream list \<Rightarrow> error + (string list \<times> counter)" where
  "apply_rows c hostname_map [] = Inr ([], c)"
| "apply_rows c hostname_map (row # rows) =
     (case make_nl_id row c hostname_map of
        Inl e \<Rightarrow> Inl e
      | Inr (nl_id, c') \<Rightarrow>
          (case apply_rows c' hostname_map rows of
             Inl e \<Rightarrow> Inl e
           | Inr (nl_ids, c'') \<Rightarrow> Inr (nl_id # nl_ids, c'')))"

text \<open>
  \<^verbatim>\<open>_create_nl_ids\<close>: a new \<^verbatim>\<open>Counter()\<close> for each call, dropped on return. The result
  lists the ids in row order (the \<^verbatim>\<open>Series\<close> shares the table's index). For a table
  with no rows there are no ids; what pandas returns then is not a \<^verbatim>\<open>Series\<close>, which
  the two callers below account for.
\<close>

definition create_nl_ids :: "stream list \<Rightarrow> error + string list" where
  "create_nl_ids df =
     (case apply_rows Counter hostname_device_mapper df of
        Inl e \<Rightarrow> Inl e
      | Inr (nl_ids, _) \<Rightarrow> Inr nl_ids)"


section \<open>Normalization and the two entry points\<close>

text \<open>
  \<^verbatim>\<open>df.replace({column: {old: new, ...}})\<close> on one cell of that column: a value equal
  to a key is replaced, any other value is kept.
\<close>

definition replace_value :: "(string \<times> string) list \<Rightarrow> string \<Rightarrow> string" where
  "replace_value mapper v = (case map_of mapper v of None \<Rightarrow> v | Some w \<Rightarrow> w)"

text \<open>
  Lines 167 and 169 of \<^verbatim>\<open>_parse_metadata\<close>: lowercase the \<^verbatim>\<open>type\<close> column, then
  \<^verbatim>\<open>df.replace(self.metadata_mapper)\<close>, which names the \<^verbatim>\<open>type\<close> column only.
\<close>

definition normalize_metadata :: "stream list \<Rightarrow> stream list" where
  "normalize_metadata df =
     (let df1 = map (\<lambda>row. row\<lparr>type := lower (type row)\<rparr>) df
      in map (\<lambda>row. row\<lparr>type := replace_value metadata_mapper_type (type row)\<rparr>) df1)"

text \<open>
  \<^verbatim>\<open>_parse_metadata\<close>, applied to the table that the base class has parsed. The result
  pairs each row with its \<^verbatim>\<open>nl_id\<close>: as the index, checked for duplicates
  (\<^verbatim>\<open>verify_integrity=True\<close>) and sorted, or as the first column in the original order.
  For a table with no rows \<^verbatim>\<open>df.apply\<close> returns an empty \<^verbatim>\<open>DataFrame\<close> instead of a
  \<^verbatim>\<open>Series\<close>, and the assignment \<^verbatim>\<open>df['nl_id'] = nl_ids\<close> (line 171) raises
  \<^verbatim>\<open>ValueError\<close>.
\<close>

definition parse_metadata :: "stream list \<Rightarrow> bool \<Rightarrow> error + (string \<times> stream) list" where
  "parse_metadata df0 nl_id_as_index =
     (let df = normalize_metadata df0 in
      case create_nl_ids df of
        Inl e \<Rightarrow> Inl e
      | Inr nl_ids \<Rightarrow>
          if df = [] then Inl ValueError
          else if nl_id_as_index then
            (if distinct nl_ids then Inr (sort_key fst (zip nl_ids df)) else Inl ValueError)
          else Inr (zip nl_ids df))"

text \<open>
  \<^verbatim>\<open>resolve_streams\<close>, applied to the table that the base class has resolved: the ids are
  created from that table as it is. A table with no rows raises \<^verbatim>\<open>ValueError\<close> at the
  assignment of line 115, as in \<^verbatim>\<open>_parse_metadata\<close>.
\<close>

definition resolve_streams :: "stream list \<Rightarrow> bool \<Rightarrow> error + (string \<times> stream) list" where
  "resolve_streams df nl_id_as_index =
     (case create_nl_ids df of
        Inl e \<Rightarrow> Inl e
      | Inr nl_ids \<Rightarrow>
          if df = [] then Inl ValueError
          else if nl_id_as_index then
            (if distinct nl_ids then Inr (sort_key fst (zip nl_ids df)) else Inl ValueError)
          else Inr (zip nl_ids df))"

text \<open>
  One channel table: the columns \<^verbatim>\<open>index\<close>, \<^verbatim>\<open>label\<close> and \<^verbatim>\<open>type\<close>, each present or
  not. Any further column is untouched by the code and lives in the record's extension.
\<close>

record channel_df =
  index_col :: "string list option"
  label_col :: "string list option"
  type_col :: "string list option"

text \<open>The body of the loop in \<^verbatim>\<open>_parse_channel_metadata\<close> (lines 191 to 194).\<close>

definition fix_channel_df :: "channel_df \<Rightarrow> channel_df" where
  "fix_channel_df df0 =
     (let df = (if index_col df0 \<noteq> None \<and> label_col df0 = None
                then df0\<lparr>label_col := index_col df0\<rparr> else df0)
      in df\<lparr>label_col := map_option (map (replace_value channel_metadata_mapper_label)) (label_col df),
            type_col := map_option (map (replace_value channel_metadata_mapper_type)) (type_col df)\<rparr>)"

text \<open>\<^verbatim>\<open>_parse_channel_metadata\<close>, applied to what the base class returns.\<close>

definition parse_channel_metadata ::
  "(int \<times> channel_df) list option \<Rightarrow> (int \<times> channel_df) list option" where
  "parse_channel_metadata data =
     (case data of
        None \<Rightarrow> None
      | Some d \<Rightarrow> Some (map (\<lambda>(stream_id, df). (stream_id, fix_channel_df df)) d))"


section \<open>Remapping: \<^verbatim>\<open>_map_stream_ids\<close>\<close>

text \<open>
  A stream key is a raw integer id before the remap and an \<^verbatim>\<open>nl_id\<close> string after it;
  Python holds both in the same collections.
\<close>

datatype key = RawId int | NlId string

text \<open>
  What \<^verbatim>\<open>_map_stream_ids\<close> can be given: \<^verbatim>\<open>None\<close>, a list of stream ids, a dict from
  stream id to payload (in insertion order), a \<^verbatim>\<open>DataFrame\<close> (index label and row), or a
  value of any other type.
\<close>

datatype 'v collection =
    NoneData
  | ListData "key list"
  | DictData "(key \<times> 'v) list"
  | FrameData "(key \<times> 'v) list"
  | OtherData 'v

text \<open>
  \<^verbatim>\<open>_stream_id_to_nl_id\<close>: the index labels of the rows whose \<^verbatim>\<open>stream_id\<close> column equals
  the argument, then element 0, which raises \<^verbatim>\<open>IndexError\<close> when no row matches.
\<close>

definition stream_id_to_nl_id :: "(string \<times> stream) list \<Rightarrow> key \<Rightarrow> error + string" where
  "stream_id_to_nl_id metadata stream_id =
     (case filter (\<lambda>(nl_id, row). RawId (raw_id row) = stream_id) metadata of
        [] \<Rightarrow> Inl IndexError
      | (nl_id, _) # _ \<Rightarrow> Inr nl_id)"

text \<open>The list comprehension of line 254: in order, stopping at the first exception.\<close>

fun list_comprehension :: "(key \<Rightarrow> error + string) \<Rightarrow> key list \<Rightarrow> error + string list" where
  "list_comprehension f [] = Inr []"
| "list_comprehension f (stream_id # data) =
     (case f stream_id of
        Inl e \<Rightarrow> Inl e
      | Inr nl_id \<Rightarrow>
          (case list_comprehension f data of
             Inl e \<Rightarrow> Inl e
           | Inr nl_ids \<Rightarrow> Inr (nl_id # nl_ids)))"

text \<open>
  The dict comprehension of line 258: a key seen again keeps its place and takes the new
  payload, as \<^const>\<open>AList.update\<close> does.
\<close>

fun dict_comprehension ::
  "(key \<Rightarrow> error + string) \<Rightarrow> (key \<times> 'v) list \<Rightarrow> (string \<times> 'v) list \<Rightarrow> error + (string \<times> 'v) list" where
  "dict_comprehension f [] acc = Inr acc"
| "dict_comprehension f ((stream_id, df) # items) acc =
     (case f stream_id of
        Inl e \<Rightarrow> Inl e
      | Inr nl_id \<Rightarrow> dict_comprehension f items (AList.update nl_id df acc))"

text \<open>
  \<^verbatim>\<open>_map_stream_ids\<close>. The keys of a dict are distinct, so \<^verbatim>\<open>sorted(data.items())\<close>
  orders the pairs by key alone; \<^verbatim>\<open>sort_index\<close> orders the rows by index label.
\<close>

definition map_stream_ids :: "(string \<times> stream) list \<Rightarrow> 'v collection \<Rightarrow> error + 'v collection" where
  "map_stream_ids metadata data =
     (case data of
        NoneData \<Rightarrow> Inr NoneData
      | ListData ids \<Rightarrow>
          (case list_comprehension (stream_id_to_nl_id metadata) ids of
             Inl e \<Rightarrow> Inl e
           | Inr nl_ids \<Rightarrow> Inr (ListData (map NlId (sort nl_ids))))
      | DictData items \<Rightarrow>
          (case dict_comprehension (stream_id_to_nl_id metadata) items [] of
             Inl e \<Rightarrow> Inl e
           | Inr d \<Rightarrow> Inr (DictData (map (\<lambda>(nl_id, df). (NlId nl_id, df)) (sort_key fst d))))
      | FrameData rows \<Rightarrow>
          (case list_comprehension (stream_id_to_nl_id metadata) (map fst rows) of
             Inl e \<Rightarrow> Inl e
           | Inr nl_ids \<Rightarrow>
               Inr (FrameData (map (\<lambda>(nl_id, df). (NlId nl_id, df))
                                 (sort_key fst (zip nl_ids (map snd rows))))))
      | OtherData x \<Rightarrow> Inr (OtherData x))"


section \<open>The facade: \<^verbatim>\<open>load\<close>\<close>

text \<open>
  The part of the object that \<^verbatim>\<open>load\<close> reads and writes: the resolved metadata table
  (index \<^verbatim>\<open>nl_id\<close>, with the \<^verbatim>\<open>stream_id\<close> column) and the six collections.
\<close>

record 'v handle =
  metadata :: "(string \<times> stream) list"
  loaded_stream_ids :: "'v collection"
  channel_metadata :: "'v collection"
  footer :: "'v collection"
  clock_offsets :: "'v collection"
  time_series :: "'v collection"
  time_stamps :: "'v collection"

definition bind_result :: "error + 'a \<Rightarrow> ('a \<Rightarrow> error + 'b) \<Rightarrow> error + 'b" where
  "bind_result m f = (case m of Inl e \<Rightarrow> Inl e | Inr x \<Rightarrow> f x)"

text \<open>Lines 155 to 160: six remaps in a row, each assigned before the next one runs.\<close>

definition remap_all :: "'v handle \<Rightarrow> error + 'v handle" where
  "remap_all self =
     bind_result (map_stream_ids (metadata self) (loaded_stream_ids self)) (\<lambda>a.
       let self = self\<lparr>loaded_stream_ids := a\<rparr> in
     bind_result (map_stream_ids (metadata self) (channel_metadata self)) (\<lambda>b.
       let self = self\<lparr>channel_metadata := b\<rparr> in
     bind_result (map_stream_ids (metadata self) (footer self)) (\<lambda>c.
       let self = self\<lparr>footer := c\<rparr> in
     bind_result (map_stream_ids (metadata self) (clock_offsets self)) (\<lambda>d.
       let self = self\<lparr>clock_offsets := d\<rparr> in
     bind_result (map_stream_ids (metadata self) (time_series self)) (\<lambda>e.
       let self = self\<lparr>time_series := e\<rparr> in
     bind_result (map_stream_ids (metadata self) (time_stamps self)) (\<lambda>f.
       Inr (self\<lparr>time_stamps := f\<rparr>)))))))"

text \<open>
  \<^verbatim>\<open>load\<close>. The base class's \<^verbatim>\<open>_load\<close> is a parameter: it returns the object as it
  leaves it, and the exception it raised, if any. The second component of the result is
  what has been printed. An exception that leaves \<^verbatim>\<open>load\<close> is the \<open>Inl\<close> result.
\<close>

definition load ::
  "('v handle \<Rightarrow> error option \<times> 'v handle) \<Rightarrow> 'v handle \<Rightarrow> string list
     \<Rightarrow> (error + 'v handle) \<times> string list" where
  "load load_base self0 stdout =
     (case load_base self0 of
        (Some exc, self) \<Rightarrow>
          (case exc of
             NoLoadableStreamsError msg \<Rightarrow> (Inr self, stdout @ [msg])
           | XdfAlreadyLoadedError msg \<Rightarrow> (Inr self, stdout @ [msg])
           | _ \<Rightarrow> (Inl exc, stdout))
      | (None, self) \<Rightarrow> (remap_all self, stdout))"


section \<open>Vocabulary of the properties\<close>

text \<open>The id of the \<open>k\<close>-th stream with base id \<open>b\<close>: bare for the first, \<open>b-k\<close> after.\<close>

definition suffix_id :: "string \<Rightarrow> nat \<Rightarrow> string" where
  "suffix_id b k = (if k > 1 then b @ ''-'' @ str_nat k else b)"

text \<open>A base id is plain: not empty, and not another non-empty string with a suffix.\<close>

definition plain :: "string \<Rightarrow> bool" where
  "plain b = (b \<noteq> [] \<and> (\<forall>x k. b = x @ ''-'' @ str_nat k \<longrightarrow> x = []))"

text \<open>The ids given to a sequence of base ids by a counter that starts at \<open>c\<close>.\<close>

fun number_ids :: "counter \<Rightarrow> string list \<Rightarrow> string list" where
  "number_ids c [] = []"
| "number_ids c (b # bs) = suffix_id b (c b + 1) # number_ids (counter_update c b) bs"

text \<open>The stream keys of a collection, in its order.\<close>

fun keys :: "'v collection \<Rightarrow> key list" where
  "keys NoneData = []"
| "keys (ListData ids) = ids"
| "keys (DictData items) = map fst items"
| "keys (FrameData rows) = map fst rows"
| "keys (OtherData x) = []"

text \<open>The entries of a collection as a multiset of key and payload (none in a list).\<close>

fun entries :: "'v collection \<Rightarrow> (key \<times> 'v option) multiset" where
  "entries NoneData = {#}"
| "entries (ListData ids) = mset (map (\<lambda>k. (k, None)) ids)"
| "entries (DictData items) = mset (map (\<lambda>(k, v). (k, Some v)) items)"
| "entries (FrameData rows) = mset (map (\<lambda>(k, v). (k, Some v)) rows)"
| "entries (OtherData x) = {#}"

text \<open>The shape of a collection, which the remap keeps.\<close>

fun same_shape :: "'v collection \<Rightarrow> 'v collection \<Rightarrow> bool" where
  "same_shape NoneData NoneData = True"
| "same_shape (ListData _) (ListData _) = True"
| "same_shape (DictData _) (DictData _) = True"
| "same_shape (FrameData _) (FrameData _) = True"
| "same_shape (OtherData x) (OtherData y) = (x = y)"
| "same_shape _ _ = False"

text \<open>The key that the metadata table gives for a stream key; a key it lacks is kept.\<close>

definition renamed :: "(string \<times> stream) list \<Rightarrow> key \<Rightarrow> key" where
  "renamed table k = (case stream_id_to_nl_id table k of Inr nl_id \<Rightarrow> NlId nl_id | Inl _ \<Rightarrow> k)"


section \<open>Example inputs\<close>

text \<open>A table with two colliding gaze streams and three streams of one EEG host.\<close>

definition example_table :: "stream list" where
  "example_table =
     [\<lparr>raw_id = 5, type = ''Gaze'', name = ''pupil_capture'', hostname = ''pc'', source_id = ''123''\<rparr>,
      \<lparr>raw_id = 9, type = ''gaze'', name = ''Pupil Primitive Data'', hostname = ''pc'', source_id = ''123''\<rparr>,
      \<lparr>raw_id = 7, type = ''Markers'', name = ''m'', hostname = ''pc'', source_id = ''''\<rparr>,
      \<lparr>raw_id = 3, type = ''EEG'', name = ''EEG'', hostname = ''kassia'', source_id = ''''\<rparr>,
      \<lparr>raw_id = 4, type = ''eeg'', name = ''EEG'', hostname = ''kassia'', source_id = ''''\<rparr>,
      \<lparr>raw_id = 11, type = ''eeg'', name = ''EEG'', hostname = ''kassia'', source_id = ''''\<rparr>]"


text \<open>A resolved metadata table, an object loaded from it, and two base loaders.\<close>

definition example_metadata :: "(string \<times> stream) list" where
  "example_metadata =
     [(''7-markers'', \<lparr>raw_id = 7, type = ''markers'', name = ''m'', hostname = ''pc'', source_id = ''''\<rparr>),
      (''eeg-a'', \<lparr>raw_id = 1, type = ''eeg'', name = ''EEG'', hostname = ''DESKTOP-3R7C1PH'', source_id = ''''\<rparr>),
      (''ts-marker'', \<lparr>raw_id = 2, type = ''marker'', name = ''TimestampStream'', hostname = ''pc'', source_id = ''''\<rparr>)]"

definition example_handle :: "nat handle" where
  "example_handle =
     \<lparr>metadata = example_metadata,
      loaded_stream_ids = ListData [RawId 2, RawId 7, RawId 1],
      channel_metadata = DictData [(RawId 2, 20), (RawId 7, 70), (RawId 1, 10)],
      footer = FrameData [(RawId 2, 21), (RawId 1, 11), (RawId 7, 71)],
      clock_offsets = DictData [(RawId 1, 12)],
      time_series = DictData [(RawId 7, 73), (RawId 2, 23)],
      time_stamps = NoneData\<rparr>"

definition example_stale_handle :: "nat handle" where
  "example_stale_handle = example_handle\<lparr>footer := FrameData [(RawId 2, 21), (RawId 99, 0)]\<rparr>"

definition example_load_stale :: "nat handle \<Rightarrow> error option \<times> nat handle" where
  "example_load_stale self = (None, example_stale_handle)"




text \<open>A table and a channel table as the base class hands them over.\<close>

definition example_raw_table :: "stream list" where
  "example_raw_table =
     [\<lparr>raw_id = 1, type = ''EEG'', name = ''EEG'', hostname = ''kassia'', source_id = ''''\<rparr>,
      \<lparr>raw_id = 3, type = ''Control'', name = ''sync-ctrl'', hostname = ''pc'', source_id = ''''\<rparr>]"

definition example_channel_data :: "(int \<times> channel_df) list option" where
  "example_channel_data =
     Some [(1, \<lparr>index_col = Some [''0'', ''33''], label_col = None,
                type_col = Some [''ref'', ''trigger'']\<rparr>)]"


section \<open>Facts about the classifier\<close>

subsection \<open>Decimal numerals\<close>

lemma digit_char_inj: "a < 10 \<Longrightarrow> b < 10 \<Longrightarrow> digit_char a = digit_char b \<Longrightarrow> a = b"
  unfolding digit_char_def
  by (auto simp: less_Suc_eq numeral_eq_Suc nth_Cons')

lemma digit_char_is_digit: "d < 10 \<Longrightarrow> is_digit (digit_char d)"
  unfolding digit_char_def is_digit_def by (rule nth_mem) simp

lemma str_nat_nonempty: "str_nat n \<noteq> []"
  by (subst str_nat.simps) simp

lemma str_nat_digits: "c \<in> set (str_nat n) \<Longrightarrow> is_digit c"
proof (induction n arbitrary: c rule: str_nat.induct)
  case (1 n)
  show ?case
  proof (cases "n < 10")
    case True
    with 1(2) show ?thesis by (simp add: str_nat.simps[of n] digit_char_is_digit)
  next
    case False
    with 1 show ?thesis by (auto simp: str_nat.simps[of n] digit_char_is_digit)
  qed
qed

lemma minus_not_digit: "\<not> is_digit CHR ''-''"
  by (simp add: is_digit_def)

lemma minus_notin_str_nat: "CHR ''-'' \<notin> set (str_nat n)"
  using str_nat_digits minus_not_digit by blast

lemma last_str_nat_digit: "is_digit (last (str_nat n))"
  using str_nat_digits[of "last (str_nat n)" n] str_nat_nonempty[of n] by simp

lemma str_nat_inj: "str_nat n = str_nat m \<Longrightarrow> n = m"
proof (induction n arbitrary: m rule: str_nat.induct)
  case (1 n)
  show ?case
  proof (cases "n < 10")
    case n: True
    show ?thesis
    proof (cases "m < 10")
      case True
      with n 1(2) show ?thesis by (simp add: str_nat.simps digit_char_inj)
    next
      case False
      with n 1(2) have "[digit_char n] = str_nat (m div 10) @ [digit_char (m mod 10)]"
        by (simp add: str_nat.simps)
      then show ?thesis using str_nat_nonempty[of "m div 10"] by auto
    qed
  next
    case n: False
    show ?thesis
    proof (cases "m < 10")
      case True
      with n 1(2) have "str_nat (n div 10) @ [digit_char (n mod 10)] = [digit_char m]"
        by (simp add: str_nat.simps)
      then show ?thesis using str_nat_nonempty[of "n div 10"] by auto
    next
      case False
      with n 1(2) have e: "str_nat (n div 10) = str_nat (m div 10)"
        and d: "digit_char (n mod 10) = digit_char (m mod 10)"
        by (simp_all add: str_nat.simps)
      from 1(1)[OF n e] have "n div 10 = m div 10" .
      moreover from d have "n mod 10 = m mod 10" by (simp add: digit_char_inj)
      ultimately show ?thesis by (metis div_mult_mod_eq)
    qed
  qed
qed

subsection \<open>Suffixed ids\<close>

lemma split_at_last_sep:
  assumes "xs @ s # d1 = ys @ s # d2" "s \<notin> set d1" "s \<notin> set d2"
  shows "xs = ys \<and> d1 = d2"
  using assms
  by (auto simp: append_eq_append_conv2 Cons_eq_append_conv append_eq_Cons_conv)

lemma suffix_id_inj:
  assumes "plain b1" "plain b2" "suffix_id b1 k1 = suffix_id b2 k2" "k1 \<ge> 1" "k2 \<ge> 1"
  shows "b1 = b2 \<and> k1 = k2"
proof (cases "k1 > 1")
  case k1: True
  show ?thesis
  proof (cases "k2 > 1")
    case True
    with k1 assms(3) have "b1 @ CHR ''-'' # str_nat k1 = b2 @ CHR ''-'' # str_nat k2"
      by (simp add: suffix_id_def)
    from split_at_last_sep[OF this minus_notin_str_nat minus_notin_str_nat]
    show ?thesis by (auto dest: str_nat_inj)
  next
    case False
    with k1 assms(3) have "b2 = b1 @ ''-'' @ str_nat k1" by (simp add: suffix_id_def)
    with assms(1,2) show ?thesis unfolding plain_def by blast
  qed
next
  case k1: False
  show ?thesis
  proof (cases "k2 > 1")
    case True
    with k1 assms(3) have "b1 = b2 @ ''-'' @ str_nat k2" by (simp add: suffix_id_def)
    with assms(1,2) show ?thesis unfolding plain_def by blast
  next
    case False
    with k1 assms show ?thesis by (simp add: suffix_id_def)
  qed
qed

lemma plain_last_nondigit: "b \<noteq> [] \<Longrightarrow> \<not> is_digit (last b) \<Longrightarrow> plain b"
  unfolding plain_def using last_str_nat_digit str_nat_nonempty
  by (auto simp: last_append)

lemma plain_str_int: "plain (str_int i)"
proof -
  have ne: "str_int i \<noteq> []" by (simp add: str_int_def str_nat_nonempty)
  have "x = []" if "str_int i = x @ ''-'' @ str_nat k" for x k
  proof (cases x)
    case Nil then show ?thesis .
  next
    case (Cons a x')
    show ?thesis
    proof (cases "i < 0")
      case True
      with that Cons have "str_nat (nat (- i)) = x' @ CHR ''-'' # str_nat k"
        by (simp add: str_int_def)
      then have "CHR ''-'' \<in> set (str_nat (nat (- i)))" by simp
      then show ?thesis using minus_notin_str_nat by blast
    next
      case False
      with that have "str_nat (nat i) = x @ CHR ''-'' # str_nat k"
        by (simp add: str_int_def)
      then have "CHR ''-'' \<in> set (str_nat (nat i))" by simp
      then show ?thesis using minus_notin_str_nat by blast
    qed
  qed
  with ne show ?thesis unfolding plain_def by blast
qed

lemma device_names_plain:
  assumes "map_of hostname_device_mapper h = Some d"
  shows "d \<noteq> [] \<and> \<not> is_digit (last d)"
proof -
  from assms have "(h, d) \<in> set hostname_device_mapper" by (rule map_of_SomeD)
  then show ?thesis
    unfolding hostname_device_mapper_def by (auto simp: is_digit_def)
qed

lemma base_id_plain:
  assumes "base_id row hostname_device_mapper = Inr b"
  shows "plain b"
proof -
  from assms show ?thesis
    unfolding base_id_def Let_def
    by (auto split: if_splits option.splits
        intro!: plain_last_nondigit plain_str_int
        dest!: device_names_plain simp: is_digit_def)
qed

subsection \<open>The pass over the rows\<close>

lemma make_nl_id_Inr:
  "make_nl_id row c hm = Inr (i, c') \<longleftrightarrow>
     (\<exists>b. base_id row hm = Inr b \<and> c' = counter_update c b \<and> i = suffix_id b (c b + 1))"
  by (auto simp: make_nl_id_def suffix_id_def counter_update_def Let_def split: sum.splits)

lemma apply_rows_number_ids:
  "apply_rows c hm rows = Inr (ids, c') \<Longrightarrow>
     \<exists>bs. map (\<lambda>r. base_id r hm) rows = map Inr bs \<and> ids = number_ids c bs
        \<and> (\<forall>b. c' b = c b + count_list bs b)"
proof (induction rows arbitrary: c ids c')
  case Nil
  then show ?case by simp
next
  case (Cons row rows)
  from Cons.prems obtain i c1 is1 where
    m: "make_nl_id row c hm = Inr (i, c1)" and
    r: "apply_rows c1 hm rows = Inr (is1, c')" and ids: "ids = i # is1"
    by (auto split: sum.splits prod.splits)
  from m obtain b where b: "base_id row hm = Inr b" "c1 = counter_update c b"
    "i = suffix_id b (c b + 1)" by (auto simp: make_nl_id_Inr)
  from Cons.IH[OF r] obtain bs where bs: "map (\<lambda>r. base_id r hm) rows = map Inr bs"
    "is1 = number_ids c1 bs" "\<forall>b. c' b = c1 b + count_list bs b" by blast
  have "map (\<lambda>r. base_id r hm) (row # rows) = map Inr (b # bs)" using b bs by simp
  moreover have "ids = number_ids c (b # bs)" using ids b bs by simp
  moreover have "\<forall>x. c' x = c x + count_list (b # bs) x"
    using bs(3) b(2) by (simp add: counter_update_def)
  ultimately show ?case by blast
qed

lemma apply_rows_total:
  "map (\<lambda>r. base_id r hm) rows = map Inr bs \<Longrightarrow> \<exists>ids c'. apply_rows c hm rows = Inr (ids, c')"
proof (induction rows arbitrary: c bs)
  case Nil
  then show ?case by simp
next
  case (Cons row rows)
  then obtain b bs' where bs: "bs = b # bs'" "base_id row hm = Inr b"
    "map (\<lambda>r. base_id r hm) rows = map Inr bs'" by (cases bs) auto
  obtain i c1 where m: "make_nl_id row c hm = Inr (i, c1)"
    using bs(2) by (auto simp: make_nl_id_Inr)
  from Cons.IH[OF bs(3), of c1] obtain ids c' where "apply_rows c1 hm rows = Inr (ids, c')"
    by blast
  with m show ?case by simp
qed

lemma number_ids_length: "length (number_ids c bs) = length bs"
  by (induction bs arbitrary: c) auto

lemma number_ids_nth:
  "i < length bs \<Longrightarrow>
     number_ids c bs ! i = suffix_id (bs ! i) (c (bs ! i) + count_list (take (Suc i) bs) (bs ! i))"
proof (induction bs arbitrary: c i)
  case Nil
  then show ?case by simp
next
  case (Cons b bs)
  show ?case
  proof (cases i)
    case 0
    then show ?thesis by simp
  next
    case (Suc j)
    with Cons.prems have "j < length bs" by simp
    from Cons.IH[OF this, of "counter_update c b"]
    have "number_ids (counter_update c b) bs ! j =
        suffix_id (bs ! j) (counter_update c b (bs ! j) + count_list (take (Suc j) bs) (bs ! j))" .
    moreover have "counter_update c b (bs ! j) + count_list (take (Suc j) bs) (bs ! j) =
        c (bs ! j) + count_list (take (Suc (Suc j)) (b # bs)) (bs ! j)"
      by (simp add: counter_update_def)
    ultimately show ?thesis using Suc by simp
  qed
qed

lemma number_ids_set:
  "x \<in> set (number_ids c bs) \<Longrightarrow> \<exists>b k. b \<in> set bs \<and> c b < k \<and> x = suffix_id b k"
proof (induction bs arbitrary: c)
  case Nil
  then show ?case by simp
next
  case (Cons b bs)
  from Cons.prems consider "x = suffix_id b (c b + 1)" | "x \<in> set (number_ids (counter_update c b) bs)"
    by auto
  then show ?case
  proof cases
    case 1
    then show ?thesis by (intro exI[of _ b] exI[of _ "c b + 1"]) simp
  next
    case 2
    from Cons.IH[OF this] obtain b' k where
      "b' \<in> set bs" "counter_update c b b' < k" "x = suffix_id b' k" by blast
    moreover then have "c b' < k" by (auto simp: counter_update_def split: if_splits)
    ultimately show ?thesis by auto
  qed
qed

lemma number_ids_distinct:
  "\<forall>b \<in> set bs. plain b \<Longrightarrow> distinct (number_ids c bs)"
proof (induction bs arbitrary: c)
  case Nil
  then show ?case by simp
next
  case (Cons b bs)
  have "suffix_id b (c b + 1) \<notin> set (number_ids (counter_update c b) bs)"
  proof
    assume "suffix_id b (c b + 1) \<in> set (number_ids (counter_update c b) bs)"
    from number_ids_set[OF this] obtain b' k where
      k: "b' \<in> set bs" "counter_update c b b' < k" "suffix_id b (c b + 1) = suffix_id b' k"
      by blast
    have p: "plain b" "plain b'" using Cons.prems k(1) by auto
    have "1 \<le> c b + 1" "1 \<le> k" using k(2) by simp_all
    from suffix_id_inj[OF p k(3) this] have "b' = b" "k = c b + 1" by auto
    with k(2) show False by (simp add: counter_update_def)
  qed
  moreover have "distinct (number_ids (counter_update c b) bs)"
    using Cons by simp
  ultimately show ?case by simp
qed


text \<open>Classification returns whenever every EEG row names a mapped hostname.\<close>

lemma base_id_returns:
  assumes "lower (type row) = ''eeg'' \<longrightarrow> map_of hostname_map (hostname row) \<noteq> None"
  shows "\<exists>b. base_id row hostname_map = Inr b"
proof (cases "lower (type row) = ''eeg''")
  case True
  with assms obtain device where "map_of hostname_map (hostname row) = Some device" by auto
  with True show ?thesis by (simp add: base_id_def)
next
  case False
  then show ?thesis
    by (cases "map_of hostname_map (hostname row)") (simp_all add: base_id_def Let_def)
qed

lemma create_nl_ids_returns:
  assumes "\<forall>row \<in> set df. lower (type row) = ''eeg''
             \<longrightarrow> map_of hostname_device_mapper (hostname row) \<noteq> None"
  shows "\<exists>nl_ids. create_nl_ids df = Inr nl_ids"
proof -
  have "\<exists>bs. map (\<lambda>row. base_id row hostname_device_mapper) df = map Inr bs"
    using assms
  proof (induction df)
    case Nil
    then show ?case by simp
  next
    case (Cons row df)
    then obtain bs where "map (\<lambda>row. base_id row hostname_device_mapper) df = map Inr bs"
      by auto
    moreover from Cons.prems obtain b where "base_id row hostname_device_mapper = Inr b"
      using base_id_returns[of row hostname_device_mapper] by auto
    ultimately have "map (\<lambda>row. base_id row hostname_device_mapper) (row # df) = map Inr (b # bs)"
      by simp
    then show ?case by blast
  qed
  then obtain bs where "map (\<lambda>row. base_id row hostname_device_mapper) df = map Inr bs" ..
  from apply_rows_total[OF this, of Counter] show ?thesis
    by (auto simp: create_nl_ids_def)
qed

lemmas classifier_eval =
  create_nl_ids_def make_nl_id_def base_id_def lower_def lower_char_def latin1_upper_def
  latin1_lower_def startswith_def
  str_int_def str_nat.simps digit_char_def Counter_def counter_update_def
  hostname_device_mapper_def

lemma eeg_unmapped_raises:
  assumes "lower (type row) = ''eeg''" "map_of hostname_map (hostname row) = None"
  shows "make_nl_id row c hostname_map = Inl (KeyError (hostname row))"
  using assms by (simp add: make_nl_id_def base_id_def)

section \<open>Claims about classification\<close>

text \<open>
  C1. The claim: an \<^verbatim>\<open>eeg\<close> row whose hostname is missing from the device map is
  classified without error as \<open>str(raw_id)\<close>, and classification never fails. The code
  subscripts the map without a test, so such a row raises \<^verbatim>\<open>KeyError\<close>, for the row
  alone and for a table that contains it.
\<close>

theorem eeg_unmapped_hostname_raises:
  "make_nl_id \<lparr>raw_id = 2, type = ''eeg'', name = ''EEG'', hostname = ''unknown-host'',
       source_id = ''''\<rparr> Counter hostname_device_mapper = Inl (KeyError ''unknown-host'')
   \<and> create_nl_ids
       [\<lparr>raw_id = 1, type = ''eeg'', name = ''EEG'', hostname = ''DESKTOP-3R7C1PH'', source_id = ''''\<rparr>,
        \<lparr>raw_id = 2, type = ''eeg'', name = ''EEG'', hostname = ''unknown-host'', source_id = ''''\<rparr>]
      = Inl (KeyError ''unknown-host'')"
  by (simp add: classifier_eval)

lemma create_nl_ids_bases:
  assumes "create_nl_ids df = Inr nl_ids"
  obtains bs where "map (\<lambda>row. base_id row hostname_device_mapper) df = map Inr bs"
    and "nl_ids = number_ids Counter bs" and "length bs = length df"
    and "\<forall>b \<in> set bs. plain b"
proof -
  from assms obtain c' where "apply_rows Counter hostname_device_mapper df = Inr (nl_ids, c')"
    by (auto simp: create_nl_ids_def split: sum.splits)
  from apply_rows_number_ids[OF this] obtain bs where
    bs: "map (\<lambda>r. base_id r hostname_device_mapper) df = map Inr bs"
    and ids: "nl_ids = number_ids Counter bs" by blast
  from bs have len: "length bs = length df" by (metis length_map)
  have "plain b" if "b \<in> set bs" for b
  proof -
    from that obtain i where i: "i < length bs" "bs ! i = b" by (auto simp: in_set_conv_nth)
    with bs len have "base_id (df ! i) hostname_device_mapper = Inr b"
      by (metis nth_map)
    then show ?thesis by (rule base_id_plain)
  qed
  with bs ids len show ?thesis using that by blast
qed

text \<open>
  C2. Whenever classification of a table of N rows returns, it returns N ids that are
  pairwise distinct: a suffixed id never equals a bare base id or another suffixed id,
  whatever the types, names, hostnames, source ids and raw ids of the rows are.
\<close>

theorem nl_ids_pairwise_distinct:
  assumes "create_nl_ids df = Inr nl_ids"
  shows "length nl_ids = length df \<and> distinct nl_ids \<and> card (set nl_ids) = length df"
proof -
  from assms obtain bs where bs: "nl_ids = number_ids Counter bs" "length bs = length df"
    "\<forall>b \<in> set bs. plain b" by (rule create_nl_ids_bases)
  from bs(3) have d: "distinct nl_ids" unfolding bs(1) by (rule number_ids_distinct)
  have l: "length nl_ids = length df" by (simp add: bs number_ids_length)
  from d l show ?thesis by (simp add: distinct_card)
qed

lemma example_table_ids:
  "create_nl_ids example_table =
     Inr [''pl-123-gaze'', ''pl-123-gaze-2'', ''7-markers'', ''jamief'', ''jamief-2'', ''jamief-3'']"
  by (simp add: example_table_def classifier_eval)

theorem nl_ids_pairwise_distinct_witness:
  "create_nl_ids example_table =
     Inr [''pl-123-gaze'', ''pl-123-gaze-2'', ''7-markers'', ''jamief'', ''jamief-2'', ''jamief-3'']
   \<and> distinct [''pl-123-gaze'', ''pl-123-gaze-2'', ''7-markers'', ''jamief'', ''jamief-2'', ''jamief-3'']
   \<and> length example_table = 6"
  using nl_ids_pairwise_distinct[OF example_table_ids] example_table_ids by simp

lemma count_bases:
  assumes "map f xs = map Inr bs"
  shows "count_list bs b = length (filter (\<lambda>x. f x = Inr b) xs)"
  using assms
proof (induction xs arbitrary: bs)
  case Nil
  then show ?case by simp
next
  case (Cons x xs)
  then obtain b' bs' where "bs = b' # bs'" "f x = Inr b'" "map f xs = map Inr bs'"
    by (cases bs) auto
  with Cons.IH[of bs'] show ?case by auto
qed

text \<open>
  C3. In row order, the row at position \<open>i\<close> with base id \<open>b\<close> is the \<open>k\<close>-th row
  with that base id, where \<open>k\<close> counts the rows up to and including \<open>i\<close> whose base id
  is \<open>b\<close>. It receives \<open>b\<close> when \<open>k = 1\<close> and \<open>b\<close>, a hyphen and the decimal numeral
  of \<open>k\<close> otherwise.
\<close>

theorem kth_stream_of_base_id:
  assumes "create_nl_ids df = Inr nl_ids"
    and "i < length df"
    and "base_id (df ! i) hostname_device_mapper = Inr b"
  shows "nl_ids ! i =
     (let k = length (filter (\<lambda>row. base_id row hostname_device_mapper = Inr b) (take (Suc i) df))
      in if k = 1 then b else b @ ''-'' @ str_nat k)"
proof -
  from assms(1) obtain bs where
    m: "map (\<lambda>row. base_id row hostname_device_mapper) df = map Inr bs"
    and ids: "nl_ids = number_ids Counter bs" and len: "length bs = length df"
    by (rule create_nl_ids_bases)
  from m assms(2,3) len have bi: "bs ! i = b" by (metis nth_map sum.inject(2))
  let ?k = "length (filter (\<lambda>row. base_id row hostname_device_mapper = Inr b) (take (Suc i) df))"
  from m have "map (\<lambda>row. base_id row hostname_device_mapper) (take (Suc i) df)
      = map Inr (take (Suc i) bs)" by (simp flip: take_map)
  from count_bases[OF this] have k: "count_list (take (Suc i) bs) b = ?k" .
  have "b \<in> set (take (Suc i) bs)"
    using bi assms(2) len by (auto simp: in_set_conv_nth intro!: exI[of _ i])
  then have "count_list (take (Suc i) bs) b \<noteq> 0" by (simp only: count_list_0_iff not_not)
  with k have pos: "?k \<ge> 1" by (simp only: One_nat_def Suc_le_eq neq0_conv)
  from assms(2) len have "nl_ids ! i = suffix_id b (Counter b + count_list (take (Suc i) bs) b)"
    unfolding ids using number_ids_nth[of i bs Counter] bi by simp
  then have "nl_ids ! i = suffix_id b ?k" using k by (simp add: Counter_def)
  with pos show ?thesis by (auto simp: suffix_id_def Let_def)
qed

theorem kth_stream_of_base_id_witness:
  "create_nl_ids example_table =
     Inr [''pl-123-gaze'', ''pl-123-gaze-2'', ''7-markers'', ''jamief'', ''jamief-2'', ''jamief-3'']
   \<and> base_id (example_table ! 5) hostname_device_mapper = Inr ''jamief''
   \<and> [''pl-123-gaze'', ''pl-123-gaze-2'', ''7-markers'', ''jamief'', ''jamief-2'', ''jamief-3''] ! 5
       = ''jamief'' @ ''-'' @ str_nat 3"
proof -
  have i: "5 < length example_table" by (simp add: example_table_def)
  have b: "base_id (example_table ! 5) hostname_device_mapper = Inr ''jamief''"
    by (simp add: example_table_def classifier_eval)
  show ?thesis
    using kth_stream_of_base_id[OF example_table_ids i b] example_table_ids b
    by (simp add: str_nat.simps digit_char_def)
qed


section \<open>Facts about the remap\<close>

subsection \<open>The comprehensions\<close>

lemma list_comprehension_total:
  "\<forall>x \<in> set xs. f x = Inr (g x) \<Longrightarrow> list_comprehension f xs = Inr (map g xs)"
  by (induction xs) auto

lemma list_comprehension_fails:
  assumes "x \<in> set xs" "f x = Inl e" "\<And>y e'. f y = Inl e' \<Longrightarrow> e' = e"
  shows "list_comprehension f xs = Inl e"
  using assms(1,2)
proof (induction xs)
  case Nil
  then show ?case by simp
next
  case (Cons a xs)
  show ?case
  proof (cases "f a")
    case (Inl e')
    with assms(3) show ?thesis by auto
  next
    case (Inr y)
    with Cons have "list_comprehension f xs = Inl e" by auto
    with Inr show ?thesis by simp
  qed
qed

lemma list_comprehension_error:
  "list_comprehension f xs = Inl e \<Longrightarrow> \<exists>x \<in> set xs. f x = Inl e"
  by (induction xs arbitrary: e) (auto split: sum.splits)

lemma dict_comprehension_fails:
  assumes "k \<in> fst ` set items" "f k = Inl e" "\<And>y e'. f y = Inl e' \<Longrightarrow> e' = e"
  shows "dict_comprehension f items acc = Inl e"
  using assms(1,2)
proof (induction items arbitrary: acc)
  case Nil
  then show ?case by simp
next
  case (Cons a items)
  obtain k' v where a: "a = (k', v)" by (cases a)
  show ?case
  proof (cases "f k'")
    case (Inl e')
    with assms(3) a show ?thesis by auto
  next
    case (Inr y)
    with Cons a have "k \<in> fst ` set items" by auto
    with Cons have "dict_comprehension f items (AList.update y v acc) = Inl e" by blast
    with Inr a show ?thesis by simp
  qed
qed

lemma dict_comprehension_error:
  "dict_comprehension f items acc = Inl e \<Longrightarrow> \<exists>k \<in> fst ` set items. f k = Inl e"
  by (induction f items acc rule: dict_comprehension.induct) (auto split: sum.splits)

lemma update_fresh: "k \<notin> fst ` set al \<Longrightarrow> AList.update k v al = al @ [(k, v)]"
  by (induction al) auto

lemma dict_comprehension_total:
  assumes "\<forall>k \<in> fst ` set items. f k = Inr (g k)"
    and "distinct (map (\<lambda>a. g (fst a)) items)"
    and "g ` fst ` set items \<inter> fst ` set acc = {}"
  shows "dict_comprehension f items acc = Inr (acc @ map (\<lambda>(k, v). (g k, v)) items)"
  using assms
proof (induction items arbitrary: acc)
  case Nil
  then show ?case by simp
next
  case (Cons a items)
  obtain k v where a: "a = (k, v)" by (cases a)
  from Cons.prems a have fk: "f k = Inr (g k)" by simp
  from Cons.prems(3) a have fresh: "g k \<notin> fst ` set acc" by auto
  have upd: "AList.update (g k) v acc = acc @ [(g k, v)]" using fresh by (rule update_fresh)
  have 1: "\<forall>k \<in> fst ` set items. f k = Inr (g k)" using Cons.prems(1) by simp
  have 2: "distinct (map (\<lambda>a. g (fst a)) items)" using Cons.prems(2) by simp
  have 3: "g ` fst ` set items \<inter> fst ` set (acc @ [(g k, v)]) = {}"
    using Cons.prems(2,3) a by (auto simp: image_iff)
  from Cons.IH[OF 1 2 3] fk a upd show ?case by simp
qed

subsection \<open>The lookup\<close>

lemma stream_id_to_nl_id_error: "stream_id_to_nl_id table k = Inl e \<Longrightarrow> e = IndexError"
  by (auto simp: stream_id_to_nl_id_def split: list.splits)

lemma stream_id_to_nl_id_miss:
  assumes "r \<notin> raw_id ` snd ` set table"
  shows "stream_id_to_nl_id table (RawId r) = Inl IndexError"
proof -
  have "filter (\<lambda>(nl_id, row). RawId (raw_id row) = RawId r) table = []"
    using assms by (auto simp: filter_empty_conv image_iff)
  then show ?thesis by (simp add: stream_id_to_nl_id_def)
qed

lemma map_stream_ids_error: "map_stream_ids table data = Inl e \<Longrightarrow> e = IndexError"
  by (cases data)
     (auto simp: map_stream_ids_def split: sum.splits
           dest!: list_comprehension_error dict_comprehension_error stream_id_to_nl_id_error)

lemma map_stream_ids_miss:
  assumes "RawId r \<in> set (keys data)" "r \<notin> raw_id ` snd ` set table"
  shows "map_stream_ids table data = Inl IndexError"
proof -
  note miss = stream_id_to_nl_id_miss[OF assms(2)]
  note err = stream_id_to_nl_id_error
  show ?thesis
  proof (cases data)
    case (ListData ids)
    with assms(1) have "RawId r \<in> set ids" by simp
    then have "list_comprehension (stream_id_to_nl_id table) ids = Inl IndexError"
      using miss err by (rule list_comprehension_fails)
    with ListData show ?thesis by (simp add: map_stream_ids_def)
  next
    case (DictData items)
    with assms(1) have "RawId r \<in> fst ` set items" by simp
    then have "dict_comprehension (stream_id_to_nl_id table) items [] = Inl IndexError"
      using miss err by (rule dict_comprehension_fails)
    with DictData show ?thesis by (simp add: map_stream_ids_def)
  next
    case (FrameData rows)
    with assms(1) have "RawId r \<in> set (map fst rows)" by simp
    then have "list_comprehension (stream_id_to_nl_id table) (map fst rows) = Inl IndexError"
      using miss err by (rule list_comprehension_fails)
    with FrameData show ?thesis by (simp add: map_stream_ids_def)
  qed (use assms(1) in auto)
qed

section \<open>Claims about the remap and the facade\<close>

text \<open>
  C4. Whatever collection \<^verbatim>\<open>_map_stream_ids\<close> returns (list, dict or table), its keys
  are \<^verbatim>\<open>nl_id\<close> strings in ascending lexicographic order.
\<close>

theorem remapped_keys_sorted:
  assumes "map_stream_ids table data = Inr out"
  shows "\<exists>nl_ids. keys out = map NlId nl_ids \<and> sorted nl_ids"
proof (cases data)
  case NoneData
  with assms show ?thesis by (auto simp: map_stream_ids_def)
next
  case (ListData ids)
  with assms obtain ys where "out = ListData (map NlId (sort ys))"
    by (auto simp: map_stream_ids_def split: sum.splits)
  then show ?thesis by (intro exI[of _ "sort ys"]) simp
next
  case (DictData items)
  with assms obtain d where
    "out = DictData (map (\<lambda>(nl_id, df). (NlId nl_id, df)) (sort_key fst d))"
    by (auto simp: map_stream_ids_def split: sum.splits)
  then show ?thesis
    by (intro exI[of _ "map fst (sort_key fst d)"]) (simp add: case_prod_unfold comp_def)
next
  case (FrameData rows)
  with assms obtain d where
    "out = FrameData (map (\<lambda>(nl_id, df). (NlId nl_id, df)) (sort_key fst d))"
    by (auto simp: map_stream_ids_def split: sum.splits)
  then show ?thesis
    by (intro exI[of _ "map fst (sort_key fst d)"]) (simp add: case_prod_unfold comp_def)
next
  case (OtherData x)
  with assms show ?thesis by (auto simp: map_stream_ids_def)
qed

lemmas mapper_eval = map_stream_ids_def stream_id_to_nl_id_def example_metadata_def

lemma example_dict_remap:
  "map_stream_ids example_metadata (DictData [(RawId 2, 20::nat), (RawId 7, 70), (RawId 1, 10)])
     = Inr (DictData [(NlId ''7-markers'', 70), (NlId ''eeg-a'', 10), (NlId ''ts-marker'', 20)])"
  by (simp add: mapper_eval)

theorem remapped_keys_sorted_witness:
  "map_stream_ids example_metadata (DictData [(RawId 2, 20::nat), (RawId 7, 70), (RawId 1, 10)])
     = Inr (DictData [(NlId ''7-markers'', 70), (NlId ''eeg-a'', 10), (NlId ''ts-marker'', 20)])
   \<and> (\<exists>nl_ids. keys (DictData [(NlId ''7-markers'', 70::nat), (NlId ''eeg-a'', 10), (NlId ''ts-marker'', 20)])
          = map NlId nl_ids \<and> sorted nl_ids)"
  using remapped_keys_sorted[OF example_dict_remap] example_dict_remap by simp





lemma remap_all_error: "remap_all self = Inl e \<Longrightarrow> e = IndexError"
  by (auto simp: remap_all_def bind_result_def Let_def split: sum.splits
      dest: map_stream_ids_error)

lemma remap_all_success:
  assumes "remap_all self = Inr self'"
    and "data \<in> set [loaded_stream_ids self, channel_metadata self, footer self,
                      clock_offsets self, time_series self, time_stamps self]"
  shows "\<exists>out. map_stream_ids (metadata self) data = Inr out"
  using assms
  by (auto simp: remap_all_def bind_result_def Let_def split: sum.splits)

text \<open>
  C7. When the base loader has succeeded and one of the six collections holds a raw id that
  no row of the metadata table carries, the remap of that collection raises
  \<^verbatim>\<open>IndexError\<close>, and \<^verbatim>\<open>load\<close> ends with that same exception: nothing catches it and no
  default is used.
\<close>

theorem lookup_miss_is_fatal:
  assumes "load_base self0 = (None, self)"
    and "data \<in> set [loaded_stream_ids self, channel_metadata self, footer self,
                      clock_offsets self, time_series self, time_stamps self]"
    and "RawId r \<in> set (keys data)"
    and "r \<notin> raw_id ` snd ` set (metadata self)"
  shows "map_stream_ids (metadata self) data = Inl IndexError
       \<and> load load_base self0 stdout = (Inl IndexError, stdout)"
proof -
  have miss: "map_stream_ids (metadata self) data = Inl IndexError"
    using assms(3,4) by (rule map_stream_ids_miss)
  have "remap_all self = Inl IndexError"
  proof (cases "remap_all self")
    case (Inl e)
    then show ?thesis using remap_all_error by blast
  next
    case (Inr self')
    from remap_all_success[OF this assms(2)] miss show ?thesis by simp
  qed
  with assms(1) miss show ?thesis by (simp add: load_def)
qed

theorem lookup_miss_is_fatal_witness:
  "load example_load_stale example_handle [] = (Inl IndexError, [])
   \<and> RawId 99 \<in> set (keys (footer example_stale_handle))
   \<and> 99 \<notin> raw_id ` snd ` set (metadata example_stale_handle)"
proof -
  have 1: "example_load_stale example_handle = (None, example_stale_handle)"
    by (simp add: example_load_stale_def)
  have 2: "footer example_stale_handle \<in> set [loaded_stream_ids example_stale_handle,
      channel_metadata example_stale_handle, footer example_stale_handle,
      clock_offsets example_stale_handle, time_series example_stale_handle,
      time_stamps example_stale_handle]" by simp
  have 3: "RawId 99 \<in> set (keys (footer example_stale_handle))"
    by (simp add: example_stale_handle_def)
  have 4: "99 \<notin> raw_id ` snd ` set (metadata example_stale_handle)"
    by (simp add: example_stale_handle_def example_handle_def example_metadata_def)
  from lookup_miss_is_fatal[of example_load_stale example_handle example_stale_handle
      "footer example_stale_handle" 99 "[]", OF 1 2 3 4] 3 4
  show ?thesis by simp
qed

lemma renamed_success:
  "stream_id_to_nl_id table k = Inr nl \<Longrightarrow> renamed table k = NlId nl"
  by (simp add: renamed_def)

text \<open>
  C6. When every key of a collection has an entry in the metadata table and the mapped keys
  are pairwise distinct, the remap returns a collection of the same shape with as many
  entries, and its entries are those of the input with only the key renamed: no entry is
  dropped or merged, and every payload is unchanged.
\<close>

theorem remap_keeps_entries:
  assumes "\<forall>k \<in> set (keys data). \<exists>nl_id. stream_id_to_nl_id table k = Inr nl_id"
    and "distinct (map (renamed table) (keys data))"
  shows "\<exists>out. map_stream_ids table data = Inr out
           \<and> same_shape data out
           \<and> length (keys out) = length (keys data)
           \<and> entries out = image_mset (\<lambda>(k, payload). (renamed table k, payload)) (entries data)"
proof -
  define g where "g k = (case stream_id_to_nl_id table k of Inr nl_id \<Rightarrow> nl_id | Inl _ \<Rightarrow> [])" for k
  have f: "stream_id_to_nl_id table k = Inr (g k)" if "k \<in> set (keys data)" for k
    using assms(1) that by (auto simp: g_def)
  have r: "renamed table k = NlId (g k)" if "k \<in> set (keys data)" for k
    using f[OF that] by (rule renamed_success)
  have "map (renamed table) (keys data) = map (\<lambda>k. NlId (g k)) (keys data)"
    using r by simp
  with assms(2) have "distinct (map NlId (map g (keys data)))" by (simp add: comp_def)
  then have dist: "distinct (map g (keys data))" by (auto simp: distinct_map inj_on_def)
  show ?thesis
  proof (cases data)
    case NoneData
    then show ?thesis by (simp add: map_stream_ids_def)
  next
    case (OtherData x)
    then show ?thesis by (simp add: map_stream_ids_def)
  next
    case (ListData ids)
    with f have "list_comprehension (stream_id_to_nl_id table) ids = Inr (map g ids)"
      by (intro list_comprehension_total) simp
    with ListData have out: "map_stream_ids table data = Inr (ListData (map NlId (sort (map g ids))))"
      by (simp add: map_stream_ids_def)
    have "mset (map (\<lambda>k. (k, None :: 'a option)) (map NlId (sort (map g ids))))
        = image_mset (\<lambda>s. (NlId s, None)) (mset (sort (map g ids)))"
      by (simp add: comp_def)
    also have "\<dots> = image_mset (\<lambda>s. (NlId s, None)) (mset (map g ids))" by simp
    also have "\<dots> = mset (map (\<lambda>k. (NlId (g k), None)) ids)" by (simp add: multiset.map_comp comp_def)
    also have "\<dots> = mset (map (\<lambda>k. (renamed table k, None)) ids)"
      using r ListData by (intro arg_cong[of _ _ mset] map_cong) simp_all
    finally have "entries (ListData (map NlId (sort (map g ids)))) =
        image_mset (\<lambda>(k, payload). (renamed table k, payload)) (entries data)"
      using ListData by (simp add: multiset.map_comp comp_def)
    with out ListData show ?thesis by simp
  next
    case (DictData items)
    have d: "distinct (map (\<lambda>a. g (fst a)) items)" using dist DictData by (simp add: comp_def)
    have "dict_comprehension (stream_id_to_nl_id table) items []
        = Inr ([] @ map (\<lambda>(k, v). (g k, v)) items)"
      using f DictData d by (intro dict_comprehension_total) auto
    with DictData have out: "map_stream_ids table data =
        Inr (DictData (map (\<lambda>(nl_id, df). (NlId nl_id, df))
                          (sort_key fst (map (\<lambda>(k, v). (g k, v)) items))))"
      by (simp add: map_stream_ids_def)
    let ?L = "map (\<lambda>(k, v). (g k, v)) items"
    have "mset (map (\<lambda>(k, v). (k, Some v)) (map (\<lambda>(nl_id, df). (NlId nl_id, df)) (sort_key fst ?L)))
        = image_mset (\<lambda>(s, v). (NlId s, Some v)) (mset (sort_key fst ?L))"
      by (simp add: comp_def case_prod_unfold)
    also have "\<dots> = image_mset (\<lambda>(s, v). (NlId s, Some v)) (mset ?L)" by simp
    also have "\<dots> = mset (map (\<lambda>(k, v). (NlId (g k), Some v)) items)"
      by (simp add: multiset.map_comp comp_def case_prod_unfold)
    also have "\<dots> = mset (map (\<lambda>(k, v). (renamed table k, Some v)) items)"
      using r DictData by (intro arg_cong[of _ _ mset] map_cong) (force simp: image_iff)+
    finally have "entries (DictData (map (\<lambda>(nl_id, df). (NlId nl_id, df)) (sort_key fst ?L))) =
        image_mset (\<lambda>(k, payload). (renamed table k, payload)) (entries data)"
      using DictData by (simp add: multiset.map_comp comp_def case_prod_unfold)
    with out DictData show ?thesis by simp
  next
    case (FrameData rows)
    with f have "list_comprehension (stream_id_to_nl_id table) (map fst rows)
        = Inr (map g (map fst rows))"
      by (intro list_comprehension_total) simp
    moreover have "zip (map g (map fst rows)) (map snd rows) = map (\<lambda>(k, v). (g k, v)) rows"
      by (induction rows) auto
    ultimately have out: "map_stream_ids table data =
        Inr (FrameData (map (\<lambda>(nl_id, df). (NlId nl_id, df))
                          (sort_key fst (map (\<lambda>(k, v). (g k, v)) rows))))"
      using FrameData by (simp add: map_stream_ids_def)
    let ?L = "map (\<lambda>(k, v). (g k, v)) rows"
    have "mset (map (\<lambda>(k, v). (k, Some v)) (map (\<lambda>(nl_id, df). (NlId nl_id, df)) (sort_key fst ?L)))
        = image_mset (\<lambda>(s, v). (NlId s, Some v)) (mset (sort_key fst ?L))"
      by (simp add: comp_def case_prod_unfold)
    also have "\<dots> = image_mset (\<lambda>(s, v). (NlId s, Some v)) (mset ?L)" by simp
    also have "\<dots> = mset (map (\<lambda>(k, v). (NlId (g k), Some v)) rows)"
      by (simp add: multiset.map_comp comp_def case_prod_unfold)
    also have "\<dots> = mset (map (\<lambda>(k, v). (renamed table k, Some v)) rows)"
      using r FrameData by (intro arg_cong[of _ _ mset] map_cong) (force simp: image_iff)+
    finally have "entries (FrameData (map (\<lambda>(nl_id, df). (NlId nl_id, df)) (sort_key fst ?L))) =
        image_mset (\<lambda>(k, payload). (renamed table k, payload)) (entries data)"
      using FrameData by (simp add: multiset.map_comp comp_def case_prod_unfold)
    with out FrameData show ?thesis by simp
  qed
qed

theorem remap_keeps_entries_witness:
  "map (stream_id_to_nl_id example_metadata) (keys (footer example_handle))
       = [Inr ''ts-marker'', Inr ''eeg-a'', Inr ''7-markers'']
   \<and> distinct (map (renamed example_metadata) (keys (footer example_handle)))
   \<and> map_stream_ids example_metadata (footer example_handle)
       = Inr (FrameData [(NlId ''7-markers'', 71), (NlId ''eeg-a'', 11), (NlId ''ts-marker'', 21)])
   \<and> (\<exists>out. map_stream_ids example_metadata (footer example_handle) = Inr out
          \<and> length (keys out) = length (keys (footer example_handle)))"
proof -
  have 1: "\<forall>k \<in> set (keys (footer example_handle)).
      \<exists>nl_id. stream_id_to_nl_id example_metadata k = Inr nl_id"
    by (simp add: example_handle_def mapper_eval)
  have 2: "distinct (map (renamed example_metadata) (keys (footer example_handle)))"
    by (simp add: example_handle_def renamed_def mapper_eval)
  have 3: "map_stream_ids example_metadata (footer example_handle)
       = Inr (FrameData [(NlId ''7-markers'', 71), (NlId ''eeg-a'', 11), (NlId ''ts-marker'', 21)])"
    by (simp add: example_handle_def mapper_eval)
  from remap_keeps_entries[OF 1 2] obtain out where
    "map_stream_ids example_metadata (footer example_handle) = Inr out"
    "length (keys out) = length (keys (footer example_handle))" by blast
  moreover have "map (stream_id_to_nl_id example_metadata) (keys (footer example_handle))
       = [Inr ''ts-marker'', Inr ''eeg-a'', Inr ''7-markers'']"
    by (simp add: example_handle_def mapper_eval)
  ultimately show ?thesis using 2 3 by blast
qed


section \<open>Facts about normalization\<close>

lemma latin1_upper_codes:
  "map of_char latin1_upper = [65..<91] @ [192..<215] @ [216..<223 :: nat]"
  by (simp add: latin1_upper_def upt_rec)

lemma latin1_lower_codes:
  "map of_char latin1_lower = map (\<lambda>n. n + 32) ([65..<91] @ [192..<215] @ [216..<223 :: nat])"
  by (simp add: latin1_lower_def upt_rec)

lemma latin1_cases_disjoint: "set latin1_lower \<inter> set latin1_upper = {}"
  by (simp add: latin1_upper_def latin1_lower_def)

lemma latin1_cases_length: "length latin1_upper = length latin1_lower"
  by (simp add: latin1_upper_def latin1_lower_def)

lemma lower_char_not_upper: "lower_char c \<notin> set latin1_upper"
proof (cases "map_of (zip latin1_upper latin1_lower) c")
  case None
  then have "c \<notin> fst ` set (zip latin1_upper latin1_lower)" by (simp add: map_of_eq_None_iff)
  then have "c \<notin> set latin1_upper"
    using latin1_cases_length by (metis map_fst_zip set_map)
  with None show ?thesis by (simp add: lower_char_def)
next
  case (Some d)
  then have "(c, d) \<in> set (zip latin1_upper latin1_lower)" by (rule map_of_SomeD)
  then have "d \<in> set latin1_lower" by (rule set_zip_rightD)
  with latin1_cases_disjoint have "d \<notin> set latin1_upper" by blast
  with Some show ?thesis by (simp add: lower_char_def)
qed

lemma lower_char_fixed: "c \<notin> set latin1_upper \<Longrightarrow> lower_char c = c"
proof -
  assume "c \<notin> set latin1_upper"
  then have "c \<notin> fst ` set (zip latin1_upper latin1_lower)"
    using latin1_cases_length by (metis map_fst_zip set_map)
  then have "map_of (zip latin1_upper latin1_lower) c = None" by (simp add: map_of_eq_None_iff)
  then show ?thesis by (simp add: lower_char_def)
qed

lemma lower_char_idem: "lower_char (lower_char c) = lower_char c"
  using lower_char_not_upper by (rule lower_char_fixed)

lemma lower_idem: "lower (lower s) = lower s"
  by (simp add: lower_def lower_char_idem)

text \<open>Accented capitals are lowercased; the multiplication sign and the sharp s are kept.\<close>

lemma lower_latin1_example:
  "lower [CHR ''E'', CHR 0xC9, CHR 0xC0, CHR 0xD7, CHR 0xDF, CHR 0xDE]
     = [CHR ''e'', CHR 0xE9, CHR 0xE0, CHR 0xD7, CHR 0xDF, CHR 0xFE]"
  by (simp add: lower_def lower_char_def latin1_upper_def latin1_lower_def)

lemma lower_char_not_upper_E: "lower_char c \<noteq> CHR ''E''"
proof -
  have "CHR ''E'' \<in> set latin1_upper" by (simp add: latin1_upper_def)
  with lower_char_not_upper[of c] show ?thesis by metis
qed

lemma replace_type_lower: "replace_value metadata_mapper_type (lower s) = lower s"
proof -
  have "lower s \<noteq> ''EEG''"
    by (cases s) (simp_all add: lower_def lower_char_not_upper_E)
  then show ?thesis by (simp add: replace_value_def metadata_mapper_type_def)
qed

lemma normalize_metadata_eq:
  "normalize_metadata df = map (\<lambda>row. row\<lparr>type := lower (type row)\<rparr>) df"
  by (simp add: normalize_metadata_def comp_def replace_type_lower)

lemma normalize_metadata_idem: "normalize_metadata (normalize_metadata df) = normalize_metadata df"
  by (simp add: normalize_metadata_eq comp_def lower_idem)

lemma replace_value_idem:
  assumes "list_all (\<lambda>w. map_of mapper w = None) (map snd mapper)"
  shows "replace_value mapper (replace_value mapper v) = replace_value mapper v"
proof (cases "map_of mapper v")
  case None
  then show ?thesis by (simp add: replace_value_def)
next
  case (Some w)
  then have "(v, w) \<in> set mapper" by (rule map_of_SomeD)
  then have "w \<in> set (map snd mapper)" by force
  with assms have "map_of mapper w = None" by (simp only: list_all_iff)
  with Some show ?thesis by (simp add: replace_value_def)
qed

lemma label_outputs_not_keys:
  "list_all (\<lambda>w. map_of channel_metadata_mapper_label w = None)
     (map snd channel_metadata_mapper_label)"
  by (simp add: channel_metadata_mapper_label_def)

lemma type_outputs_not_keys:
  "list_all (\<lambda>w. map_of channel_metadata_mapper_type w = None)
     (map snd channel_metadata_mapper_type)"
  by (simp add: channel_metadata_mapper_type_def)

lemmas replace_label_idem = replace_value_idem[OF label_outputs_not_keys]
lemmas replace_type_idem = replace_value_idem[OF type_outputs_not_keys]

lemma fix_channel_df_idem: "fix_channel_df (fix_channel_df df) = fix_channel_df df"
proof -
  have l: "map_option (map (replace_value channel_metadata_mapper_label))
             (map_option (map (replace_value channel_metadata_mapper_label)) x)
         = map_option (map (replace_value channel_metadata_mapper_label)) x" for x
    by (cases x) (simp_all add: replace_label_idem)
  have t: "map_option (map (replace_value channel_metadata_mapper_type))
             (map_option (map (replace_value channel_metadata_mapper_type)) x)
         = map_option (map (replace_value channel_metadata_mapper_type)) x" for x
    by (cases x) (simp_all add: replace_type_idem)
  show ?thesis
  proof (cases "index_col df \<noteq> None \<and> label_col df = None")
    case True
    then show ?thesis by (auto simp: fix_channel_df_def Let_def l t)
  next
    case False
    then show ?thesis by (auto simp: fix_channel_df_def Let_def l t)
  qed
qed

lemma parse_channel_metadata_idem:
  "parse_channel_metadata (parse_channel_metadata data) = parse_channel_metadata data"
  by (cases data) (simp_all add: parse_channel_metadata_def comp_def case_prod_unfold fix_channel_df_idem)

lemma outputs_fixed:
  assumes "list_all (\<lambda>w. map_of mapper w = None) (map snd mapper)"
  shows "map (replace_value mapper) (map snd mapper) = map snd mapper"
proof -
  have "replace_value mapper w = w" if "w \<in> set (map snd mapper)" for w
    using assms that by (auto simp: list_all_iff replace_value_def)
  then show ?thesis by (intro map_idI)
qed

lemma metadata_outputs_not_keys:
  "list_all (\<lambda>w. map_of metadata_mapper_type w = None) (map snd metadata_mapper_type)"
  by (simp add: metadata_mapper_type_def)


section \<open>Claims about normalization and statelessness\<close>

text \<open>
  C8. Normalization is idempotent. Applying the metadata step (lowercase the type, then
  the rewrite table) to its own output changes nothing, and so does the channel-metadata
  step (label from index when the label is missing, then the rewrite tables); no rewrite
  table maps one of its outputs to another value.
\<close>

theorem normalization_idempotent:
  "normalize_metadata (normalize_metadata df) = normalize_metadata df
   \<and> parse_channel_metadata (parse_channel_metadata data) = parse_channel_metadata data
   \<and> map (replace_value metadata_mapper_type) (map snd metadata_mapper_type)
        = map snd metadata_mapper_type
   \<and> map (replace_value channel_metadata_mapper_label) (map snd channel_metadata_mapper_label)
        = map snd channel_metadata_mapper_label
   \<and> map (replace_value channel_metadata_mapper_type) (map snd channel_metadata_mapper_type)
        = map snd channel_metadata_mapper_type"
  using normalize_metadata_idem parse_channel_metadata_idem
    outputs_fixed[OF metadata_outputs_not_keys]
    outputs_fixed[OF label_outputs_not_keys]
    outputs_fixed[OF type_outputs_not_keys]
  by (intro conjI)

lemma example_raw_table_normalized:
  "normalize_metadata example_raw_table =
     [\<lparr>raw_id = 1, type = ''eeg'', name = ''EEG'', hostname = ''kassia'', source_id = ''''\<rparr>,
      \<lparr>raw_id = 3, type = ''control'', name = ''sync-ctrl'', hostname = ''pc'', source_id = ''''\<rparr>]"
  by (simp add: example_raw_table_def normalize_metadata_def lower_def lower_char_def
      latin1_upper_def latin1_lower_def
      replace_value_def metadata_mapper_type_def)

lemma example_channel_data_parsed:
  "parse_channel_metadata example_channel_data =
     Some [(1, \<lparr>index_col = Some [''0'', ''33''], label_col = Some [''Fp1'', ''trigger''],
                type_col = Some [''eeg'', ''misc'']\<rparr>)]"
  by (simp add: example_channel_data_def parse_channel_metadata_def fix_channel_df_def
      replace_value_def channel_metadata_mapper_label_def channel_metadata_mapper_type_def)

theorem normalization_idempotent_witness:
  "normalize_metadata
     [\<lparr>raw_id = 1, type = ''eeg'', name = ''EEG'', hostname = ''kassia'', source_id = ''''\<rparr>,
      \<lparr>raw_id = 3, type = ''control'', name = ''sync-ctrl'', hostname = ''pc'', source_id = ''''\<rparr>]
   = [\<lparr>raw_id = 1, type = ''eeg'', name = ''EEG'', hostname = ''kassia'', source_id = ''''\<rparr>,
      \<lparr>raw_id = 3, type = ''control'', name = ''sync-ctrl'', hostname = ''pc'', source_id = ''''\<rparr>]
   \<and> parse_channel_metadata
       (Some [(1, \<lparr>index_col = Some [''0'', ''33''], label_col = Some [''Fp1'', ''trigger''],
                   type_col = Some [''eeg'', ''misc'']\<rparr>)])
     = Some [(1, \<lparr>index_col = Some [''0'', ''33''], label_col = Some [''Fp1'', ''trigger''],
                  type_col = Some [''eeg'', ''misc'']\<rparr>)]"
  using normalization_idempotent[of example_raw_table example_channel_data]
  by (simp only: example_raw_table_normalized example_channel_data_parsed)

text \<open>
  C9. The claim: both entry points normalize the type before the rules run, so the rules
  for exact lowercase types fire whatever the casing. \<^verbatim>\<open>_parse_metadata\<close> does;
  \<^verbatim>\<open>resolve_streams\<close> classifies the table as it was resolved. A stream of type
  \<^verbatim>\<open>Control\<close> is \<^verbatim>\<open>test-ctrl\<close> through the first and \<^verbatim>\<open>3\<close> through the second.
\<close>

theorem resolve_streams_skips_normalization:
  "resolve_streams
      [\<lparr>raw_id = 3, type = ''Control'', name = ''sync-ctrl'', hostname = ''pc'', source_id = ''''\<rparr>] True
     = Inr [(''3'', \<lparr>raw_id = 3, type = ''Control'', name = ''sync-ctrl'', hostname = ''pc'',
                     source_id = ''''\<rparr>)]
   \<and> parse_metadata
      [\<lparr>raw_id = 3, type = ''Control'', name = ''sync-ctrl'', hostname = ''pc'', source_id = ''''\<rparr>] True
     = Inr [(''test-ctrl'', \<lparr>raw_id = 3, type = ''control'', name = ''sync-ctrl'', hostname = ''pc'',
                     source_id = ''''\<rparr>)]"
  by (simp add: resolve_streams_def parse_metadata_def normalize_metadata_def replace_value_def
      metadata_mapper_type_def classifier_eval)

text \<open>
  C10. Two classification runs over equal tables return the same ids. Each run starts
  from an empty counter, and the counter it ends with holds, for every base id, the
  number of rows of that table alone with that base id.
\<close>

theorem classification_is_stateless:
  assumes "create_nl_ids df = Inr nl_ids" and "df' = df"
  shows "create_nl_ids df' = Inr nl_ids
       \<and> (\<exists>c. apply_rows Counter hostname_device_mapper df' = Inr (nl_ids, c)
              \<and> (\<forall>b. c b = length (filter (\<lambda>row. base_id row hostname_device_mapper = Inr b) df')))"
proof -
  from assms(1) obtain c where
    run: "apply_rows Counter hostname_device_mapper df = Inr (nl_ids, c)"
    by (auto simp: create_nl_ids_def split: sum.splits)
  from apply_rows_number_ids[OF run] obtain bs where
    bs: "map (\<lambda>row. base_id row hostname_device_mapper) df = map Inr bs"
    and c: "\<forall>b. c b = Counter b + count_list bs b" by blast
  have "c b = length (filter (\<lambda>row. base_id row hostname_device_mapper = Inr b) df)" for b
    using c count_bases[OF bs, of b] by (simp add: Counter_def)
  with run assms show ?thesis by blast
qed

theorem classification_is_stateless_witness:
  "create_nl_ids example_table =
     Inr [''pl-123-gaze'', ''pl-123-gaze-2'', ''7-markers'', ''jamief'', ''jamief-2'', ''jamief-3'']
   \<and> (\<exists>c. apply_rows Counter hostname_device_mapper example_table =
          Inr ([''pl-123-gaze'', ''pl-123-gaze-2'', ''7-markers'', ''jamief'', ''jamief-2'', ''jamief-3''], c)
        \<and> c ''jamief'' = 3)"
proof -
  have n: "length (filter (\<lambda>row. base_id row hostname_device_mapper = Inr ''jamief'') example_table) = 3"
    by (simp add: example_table_def classifier_eval)
  from classification_is_stateless[OF example_table_ids refl] n show ?thesis by metis
qed

end
